theory Spec2Isabelle
  imports Main "HOL-Library.Sublist"
begin

section \<open>The service worker of the capture extension (sw.js)\<close>

text \<open>
  The service worker is a single-threaded, event-driven program. Its asynchronous
  functions run synchronously up to their first \<^verbatim>\<open>await\<close> of an external operation
  (network, tab capture, timers, message delivery) and are resumed later by the event
  loop. The embedding keeps that granularity: a block of code between two such
  suspension points is one HOL function on the configuration, and a suspended function
  is a pending task. Continuations that JavaScript runs as microtasks (the return of one
  of the worker's own async functions into its caller, a throw reaching the enclosing
  \<^verbatim>\<open>catch\<close>) cannot be interleaved with an inbound event and belong to the same block.
\<close>

subsection \<open>Data\<close>

type_synonym tab_id = nat

datatype status = Idle | Fetching | Navigating | AwaitingSelection | Uploading

record job =
  job_id :: string
  job_url :: string

text \<open>
  A JavaScript number as the cropper meets it: an integer, or \<open>NaN\<close>, which is what a
  missing or non-numeric field of the rectangle becomes inside \<^verbatim>\<open>Math.min\<close>. Fractional
  values are not modelled.
\<close>

datatype jsnum = Num int | NaN

record rect =
  rect_x :: jsnum
  rect_y :: jsnum
  rect_w :: jsnum
  rect_h :: jsnum

definition num_rect :: "int \<Rightarrow> int \<Rightarrow> int \<Rightarrow> int \<Rightarrow> rect" where
  "num_rect x y w h = \<lparr> rect_x = Num x, rect_y = Num y, rect_w = Num w, rect_h = Num h \<rparr>"

text \<open>
  The values thrown inside the worker. The source throws \<^verbatim>\<open>Error\<close> objects that differ
  in their message only; the constructors name them after the failure they report.
  \<open>Thrown\<close> is a failure raised by the platform or the remote service (a rejected
  \<^verbatim>\<open>fetch\<close>, a non-2xx answer, a failed capture or decode).
\<close>

datatype error =
    EmptyQueue
  | JobNotFound
  | UrlNotAllowed string
  | NavigationTimeout
  | CropTooSmall
  | TypeError
  | Thrown string

text \<open>The human-readable texts shown in the page: three fixed ones and an error's message.\<close>

datatype notice = Ready | LoadingList | SelectPrompt | Failure error

text \<open>Messages sent to a tab.\<close>

datatype out_message =
    START_SELECT
  | RESET_SELECTION notice
  | UI_STATE string notice
  | TOGGLE_UI bool

fun message_type :: "out_message \<Rightarrow> string" where
  "message_type START_SELECT = ''START_SELECT''"
| "message_type (RESET_SELECTION m) = ''RESET_SELECTION''"
| "message_type (UI_STATE s m) = ''UI_STATE''"
| "message_type (TOGGLE_UI v) = ''TOGGLE_UI''"

subsection \<open>Image cropper: \<^verbatim>\<open>clamp\<close> and the arithmetic of \<^verbatim>\<open>cropDataUrl\<close>\<close>

text \<open>
  \<^verbatim>\<open>Math.min\<close>, \<^verbatim>\<open>Math.max\<close>, subtraction and \<^verbatim>\<open><\<close> on these numbers: \<open>NaN\<close> is
  contagious in the first three, and every comparison with \<open>NaN\<close> is false.
\<close>

definition Math_min :: "jsnum \<Rightarrow> jsnum \<Rightarrow> jsnum" where
  "Math_min a b = (case a of NaN \<Rightarrow> NaN | Num i \<Rightarrow> (case b of NaN \<Rightarrow> NaN | Num j \<Rightarrow> Num (min i j)))"

definition Math_max :: "jsnum \<Rightarrow> jsnum \<Rightarrow> jsnum" where
  "Math_max a b = (case a of NaN \<Rightarrow> NaN | Num i \<Rightarrow> (case b of NaN \<Rightarrow> NaN | Num j \<Rightarrow> Num (max i j)))"

definition js_minus :: "jsnum \<Rightarrow> jsnum \<Rightarrow> jsnum" where
  "js_minus a b = (case a of NaN \<Rightarrow> NaN | Num i \<Rightarrow> (case b of NaN \<Rightarrow> NaN | Num j \<Rightarrow> Num (i - j)))"

definition js_less :: "jsnum \<Rightarrow> jsnum \<Rightarrow> bool" where
  "js_less a b = (case a of NaN \<Rightarrow> False | Num i \<Rightarrow> (case b of NaN \<Rightarrow> False | Num j \<Rightarrow> i < j))"

text \<open>\<^verbatim>\<open>Math.max(lo, Math.min(hi, v))\<close>.\<close>

definition clamp :: "jsnum \<Rightarrow> jsnum \<Rightarrow> jsnum \<Rightarrow> jsnum" where
  "clamp v lo hi = Math_max lo (Math_min hi v)"

text \<open>
  \<^verbatim>\<open>cropDataUrl\<close> after \<^verbatim>\<open>loadImage\<close> has decoded the frame to \<open>width \<times> height\<close>
  (the integer dimensions of the bitmap): the four clamps, the 5-pixel check, and the
  region \<open>(sx, sy, sw, sh)\<close> that is handed to \<^verbatim>\<open>OffscreenCanvas\<close> and \<^verbatim>\<open>drawImage\<close>.
\<close>

definition cropDataUrl ::
  "int \<Rightarrow> int \<Rightarrow> rect \<Rightarrow> error + (jsnum \<times> jsnum \<times> jsnum \<times> jsnum)" where
  "cropDataUrl width height r =
     (let sx = clamp (rect_x r) (Num 0) (js_minus (Num width) (Num 1));
          sy = clamp (rect_y r) (Num 0) (js_minus (Num height) (Num 1));
          sw = clamp (rect_w r) (Num 1) (js_minus (Num width) sx);
          sh = clamp (rect_h r) (Num 1) (js_minus (Num height) sy)
      in if js_less sw (Num 5) \<or> js_less sh (Num 5) then Inl CropTooSmall
         else Inr (sx, sy, sw, sh))"



subsection \<open>Reliable messenger: \<^verbatim>\<open>sendMessageWithRetry\<close>\<close>

text \<open>
  What the messenger does to the outside, in order. The recipient is an oracle
  \<open>ack\<close>: \<open>ack i\<close> tells whether the \<open>i\<close>-th call of \<^verbatim>\<open>sendMessageOnce\<close> (counted
  from 0) finds \<^verbatim>\<open>chrome.runtime.lastError\<close> unset. The promise of \<^verbatim>\<open>sendMessageOnce\<close>
  is only ever resolved, so the loop has no failing branch.
\<close>

datatype io =
    SendOnce tab_id out_message
  | DelayMs nat
  | WarnUndelivered tab_id int "string option"

definition messageType :: "out_message \<Rightarrow> string option" where
  "messageType m = (if message_type m \<noteq> [] then Some (message_type m) else None)"

function sendLoop ::
  "(nat \<Rightarrow> bool) \<Rightarrow> tab_id \<Rightarrow> out_message \<Rightarrow> int \<Rightarrow> int \<Rightarrow> io list \<Rightarrow> bool \<times> io list" where
  "sendLoop ack tab m attempts i log =
     (if i < attempts then
        (let log1 = log @ [SendOnce tab m] in
         if ack (nat i) then (True, log1)
         else sendLoop ack tab m attempts (i + 1) (log1 @ [DelayMs 200]))
      else (False, log @ [WarnUndelivered tab attempts (messageType m)]))"
  by pat_completeness auto
termination
  by (relation "measure (\<lambda>(ack, tab, m, attempts, i, log). nat (attempts - i))") auto

declare sendLoop.simps [simp del]

text \<open>The third parameter of the source is optional and defaults to 10.\<close>

definition sendMessageWithRetry ::
  "(nat \<Rightarrow> bool) \<Rightarrow> tab_id \<Rightarrow> out_message \<Rightarrow> int option \<Rightarrow> bool \<times> io list" where
  "sendMessageWithRetry ack tab m attempts_arg =
     (let attempts = (case attempts_arg of None \<Rightarrow> 10 | Some a \<Rightarrow> a)
      in sendLoop ack tab m attempts 0 [])"

subsection \<open>Allow policy: \<^verbatim>\<open>isAllowed\<close>\<close>

text \<open>
  \<^verbatim>\<open>new URL(s)\<close> is the platform's parser; it is a parameter \<open>P\<close> of the model, \<open>None\<close>
  when the constructor throws. Of the parsed URL the worker reads three fields.
\<close>

record url =
  protocol :: string
  origin :: string
  pathname :: string

type_synonym url_parser = "string \<Rightarrow> url option"

definition ALLOW_LIST :: "string list" where
  "ALLOW_LIST = [''http://localhost:5177/'', ''<all_urls>'']"

text \<open>The callback given to \<^verbatim>\<open>ALLOW_LIST.some\<close>, with its own try/catch.\<close>

definition entry_matches :: "url_parser \<Rightarrow> url \<Rightarrow> string \<Rightarrow> bool" where
  "entry_matches P urlObj allowed =
     (case P allowed of
        None \<Rightarrow> False
      | Some allowedObj \<Rightarrow>
          if origin urlObj \<noteq> origin allowedObj then False
          else prefix (pathname allowedObj) (pathname urlObj))"

text \<open>\<^verbatim>\<open>Array.prototype.some\<close>: the first element that satisfies the callback decides.\<close>

fun some_js :: "('a \<Rightarrow> bool) \<Rightarrow> 'a list \<Rightarrow> bool" where
  "some_js f [] = False"
| "some_js f (a # as) = (if f a then True else some_js f as)"

text \<open>\<^verbatim>\<open>isAllowed\<close> over an explicit allow-list; the worker's own list is \<open>ALLOW_LIST\<close>.\<close>

definition isAllowedIn :: "url_parser \<Rightarrow> string list \<Rightarrow> string \<Rightarrow> bool" where
  "isAllowedIn P allow_list u =
     (case P u of
        None \<Rightarrow> False
      | Some urlObj \<Rightarrow>
          if protocol urlObj \<noteq> ''http:'' \<and> protocol urlObj \<noteq> ''https:'' then False
          else if ''<all_urls>'' \<in> set allow_list then True
          else some_js (entry_matches P urlObj) allow_list)"

definition isAllowed :: "url_parser \<Rightarrow> string \<Rightarrow> bool" where
  "isAllowed P u = isAllowedIn P ALLOW_LIST u"

text \<open>The claim's wording of the policy, to compare with the code.\<close>

definition allow_policy :: "url_parser \<Rightarrow> string list \<Rightarrow> string \<Rightarrow> bool" where
  "allow_policy P allow_list u =
     (\<exists>urlObj. P u = Some urlObj
        \<and> (protocol urlObj = ''http:'' \<or> protocol urlObj = ''https:'')
        \<and> (''<all_urls>'' \<in> set allow_list
            \<or> (\<exists>a \<in> set allow_list. \<exists>aObj. P a = Some aObj
                  \<and> origin aObj = origin urlObj
                  \<and> prefix (pathname aObj) (pathname urlObj))))"

subsection \<open>Navigation waiter: \<^verbatim>\<open>navigate\<close>\<close>

text \<open>
  One call of \<^verbatim>\<open>navigate(tabId, url)\<close> owns a flag, two timers and one listener on
  \<^verbatim>\<open>chrome.tabs.onUpdated\<close>. The record holds them together with what the platform has
  registered: an armed timer (with its delay in milliseconds) and whether the listener
  is attached. The log lists, in order, the calls that matter to the caller.
\<close>

datatype timer = TimeoutTimer | SettleTimer

datatype nav_event =
    TimerFires timer
  | TabUpdated tab_id "string option"

datatype nav_call =
    TabsUpdate tab_id string
  | ListenerCalled
  | Resolve
  | Reject error

record nav =
  nav_tab :: tab_id
  settled :: bool
  timeout_armed :: "nat option"
  settle_armed :: "nat option"
  listener_on :: bool
  calls :: "nav_call list"

text \<open>The body of the promise executor.\<close>

definition navigate :: "tab_id \<Rightarrow> string \<Rightarrow> nav" where
  "navigate tab u =
     \<lparr> nav_tab = tab, settled = False, timeout_armed = Some 60000, settle_armed = None,
       listener_on = True, calls = [TabsUpdate tab u] \<rparr>"

text \<open>The callback of the 60000 ms timer.\<close>

definition on_timeout :: "nav \<Rightarrow> nav" where
  "on_timeout n =
     (if settled n then n
      else n\<lparr> settled := True, listener_on := False,
              calls := calls n @ [Reject NavigationTimeout] \<rparr>)"

text \<open>The function \<^verbatim>\<open>listener(updatedTabId, info)\<close>; \<open>info_status\<close> is \<^verbatim>\<open>info.status\<close>.\<close>

definition listener :: "tab_id \<Rightarrow> string option \<Rightarrow> nav \<Rightarrow> nav" where
  "listener updatedTabId info_status n0 =
     (let n = n0\<lparr> calls := calls n0 @ [ListenerCalled] \<rparr> in
      if settled n then n
      else if updatedTabId \<noteq> nav_tab n then n
      else if info_status = Some ''complete'' then
        n\<lparr> settled := True, timeout_armed := None, listener_on := False,
           settle_armed := Some 250 \<rparr>
      else n)"

text \<open>
  The event loop: a timer fires only while it is armed and is disarmed by firing; a tab
  update is dispatched to the listener only while it is attached.
\<close>

definition nav_step :: "nav \<Rightarrow> nav_event \<Rightarrow> nav" where
  "nav_step n ev =
     (case ev of
        TimerFires TimeoutTimer \<Rightarrow>
          (case timeout_armed n of
             None \<Rightarrow> n
           | Some d \<Rightarrow> on_timeout (n\<lparr> timeout_armed := None \<rparr>))
      | TimerFires SettleTimer \<Rightarrow>
          (case settle_armed n of
             None \<Rightarrow> n
           | Some d \<Rightarrow> n\<lparr> settle_armed := None, calls := calls n @ [Resolve] \<rparr>)
      | TabUpdated t info_status \<Rightarrow>
          if listener_on n then listener t info_status n else n)"

definition nav_run :: "nav \<Rightarrow> nav_event list \<Rightarrow> nav" where
  "nav_run n evs = foldl nav_step n evs"

fun is_outcome :: "nav_call \<Rightarrow> bool" where
  "is_outcome Resolve = True"
| "is_outcome (Reject e) = True"
| "is_outcome c = False"

definition outcomes :: "nav \<Rightarrow> nav_call list" where
  "outcomes n = filter is_outcome (calls n)"

text \<open>The calls logged after the first outcome.\<close>

definition after_outcome :: "nav \<Rightarrow> nav_call list" where
  "after_outcome n = tl (dropWhile (\<lambda>c. \<not> is_outcome c) (calls n))"

definition load_complete :: "tab_id \<Rightarrow> nav_event" where
  "load_complete t = TabUpdated t (Some ''complete'')"

subsection \<open>Workflow orchestrator\<close>

text \<open>The object \<^verbatim>\<open>state\<close>; \<open>None\<close> in \<open>tabId\<close> is \<^verbatim>\<open>null\<close>.\<close>

record wstate =
  status :: status
  jobs :: "job list"
  index :: nat
  tabId :: "tab_id option"

text \<open>
  Inbound messages: \<^verbatim>\<open>msg.type\<close> (\<open>None\<close> when the message or its type is missing)
  and \<^verbatim>\<open>msg.rect\<close>.
\<close>

record in_msg =
  mtype :: "string option"
  mrect :: "rect option"

text \<open>
  A suspended async function: the \<^verbatim>\<open>await\<close> it stands at and the local variables its
  continuation reads. \<open>frame\<close> is the enclosing \<^verbatim>\<open>try\<close> block that a throw of
  \<^verbatim>\<open>processCurrentJob\<close> reaches: that of \<^verbatim>\<open>startWorkflow(tabId)\<close> or of \<^verbatim>\<open>handleSave\<close>.
\<close>

datatype frame = In_startWorkflow tab_id | In_handleSave

datatype task =
    At_apiGetJobs tab_id
  | At_navigate frame
  | At_START_SELECT
  | At_captureVisibleTab job "rect option"
  | At_loadImage job "rect option"
  | At_convertToBlob job rect
  | At_apiUpload job
  | At_resetState_send notice
  | At_reportError_send tab_id error
  | At_syncUiState_send tab_id
  | At_tabs_query
  | At_TOGGLE_UI "tab_id option list"
  | At_action_send

text \<open>How an awaited operation settles.\<close>

datatype result =
    Fulfilled
  | Fulfilled_jobs "job list"
  | Fulfilled_image int int
  | Fulfilled_tabs "tab_id option list"
  | Delivered bool
  | Rejected error

text \<open>
  Calls to the outside. \<open>Deliver\<close> is a call of \<^verbatim>\<open>sendMessageWithRetry\<close>, \<open>Post\<close> a
  single \<^verbatim>\<open>chrome.tabs.sendMessage\<close> whose failure is ignored.
\<close>

datatype effect =
    Deliver "tab_id option" out_message
  | Post tab_id out_message
  | HttpGetJobs
  | Navigate "tab_id option" string
  | CaptureVisibleTab
  | LoadImage
  | DrawImage jsnum jsnum jsnum jsnum
  | HttpPostUpload job "rect"
  | ConsoleError error
  | TabsQuery

record config =
  state :: wstate
  isUiVisible :: bool
  pending :: "task list"
  trace :: "effect list"

text \<open>The initialiser of \<^verbatim>\<open>state\<close>, and the worker when it starts.\<close>

definition idle_state :: wstate where
  "idle_state = \<lparr> status = Idle, jobs = [], index = 0, tabId = None \<rparr>"

definition initial :: config where
  "initial = \<lparr> state = idle_state, isUiVisible = True, pending = [], trace = [] \<rparr>"

definition emit :: "effect \<Rightarrow> config \<Rightarrow> config" where
  "emit e c = c\<lparr> trace := trace c @ [e] \<rparr>"

definition suspend :: "task \<Rightarrow> config \<Rightarrow> config" where
  "suspend t c = c\<lparr> pending := pending c @ [t] \<rparr>"

text \<open>
  Modelled from the spec: \<^verbatim>\<open>getJobAt\<close> is imported from workflow.js, which is not part
  of the sources at hand; the spec describes it as a position-accessor that returns
  absent rather than failing when out of range. \<^verbatim>\<open>normalizeJobsResponse\<close>, from the
  same file, is not modelled: the jobs handed to the worker are the normalised list.
\<close>

definition getJobAt :: "job list \<Rightarrow> nat \<Rightarrow> job option" where
  "getJobAt js i = (if i < length js then Some (js ! i) else None)"

definition notifyState :: "tab_id option \<Rightarrow> string \<Rightarrow> notice \<Rightarrow> config \<Rightarrow> config" where
  "notifyState tab stateName message c =
     (case tab of
        None \<Rightarrow> c
      | Some t \<Rightarrow> emit (Post t (UI_STATE stateName message)) c)"

text \<open>\<^verbatim>\<open>resetState\<close> up to its \<^verbatim>\<open>await\<close>, and from there to its end.\<close>

definition resetState :: "notice \<Rightarrow> bool \<Rightarrow> config \<Rightarrow> config" where
  "resetState message notify c =
     (let c1 = c\<lparr> state := (state c)\<lparr> status := Idle, jobs := [], index := 0 \<rparr> \<rparr> in
      if notify \<and> tabId (state c1) \<noteq> None then
        suspend (At_resetState_send message)
          (emit (Deliver (tabId (state c1)) (RESET_SELECTION message)) c1)
      else c1\<lparr> state := (state c1)\<lparr> tabId := None \<rparr> \<rparr>)"

definition resetState_resume :: "notice \<Rightarrow> config \<Rightarrow> config" where
  "resetState_resume message c =
     (let c1 = notifyState (tabId (state c)) ''idle'' message c
      in c1\<lparr> state := (state c1)\<lparr> tabId := None \<rparr> \<rparr>)"

text \<open>\<^verbatim>\<open>reportError\<close> up to its \<^verbatim>\<open>await\<close>, and from there to its end.\<close>

definition reportError_finish :: "config \<Rightarrow> config" where
  "reportError_finish c =
     c\<lparr> state := (state c)\<lparr> status := Idle, jobs := [], index := 0, tabId := None \<rparr> \<rparr>"

definition reportError :: "error \<Rightarrow> tab_id option \<Rightarrow> config \<Rightarrow> config" where
  "reportError e tab c =
     (let c1 = emit (ConsoleError e) c in
      case tab of
        Some t \<Rightarrow>
          suspend (At_reportError_send t e)
            (emit (Deliver (Some t) (RESET_SELECTION (Failure e))) c1)
      | None \<Rightarrow> reportError_finish c1)"

definition reportError_resume :: "tab_id \<Rightarrow> error \<Rightarrow> config \<Rightarrow> config" where
  "reportError_resume t e c =
     reportError_finish (notifyState (Some t) ''idle'' (Failure e) c)"

text \<open>
  A throw inside the \<^verbatim>\<open>try\<close> block of \<open>fr\<close>: \<^verbatim>\<open>startWorkflow\<close> reports to its parameter
  \<^verbatim>\<open>tabId\<close>, \<^verbatim>\<open>handleSave\<close> to \<^verbatim>\<open>state.tabId\<close> as it is when the throw is caught.
\<close>

definition catch_in :: "frame \<Rightarrow> error \<Rightarrow> config \<Rightarrow> config" where
  "catch_in fr e c =
     (case fr of
        In_startWorkflow t \<Rightarrow> reportError e (Some t) c
      | In_handleSave \<Rightarrow> reportError e (tabId (state c)) c)"

text \<open>\<^verbatim>\<open>processCurrentJob\<close> up to \<^verbatim>\<open>await navigate\<close>, and its two continuations.\<close>

definition processCurrentJob :: "url_parser \<Rightarrow> frame \<Rightarrow> config \<Rightarrow> config" where
  "processCurrentJob P fr c =
     (case getJobAt (jobs (state c)) (index (state c)) of
        None \<Rightarrow> resetState Ready True c
      | Some j \<Rightarrow>
          if \<not> isAllowed P (job_url j) then catch_in fr (UrlNotAllowed (job_url j)) c
          else suspend (At_navigate fr) (emit (Navigate (tabId (state c)) (job_url j)) c))"

definition navigate_resume :: "frame \<Rightarrow> result \<Rightarrow> config \<Rightarrow> config option" where
  "navigate_resume fr r c =
     (case r of
        Fulfilled \<Rightarrow>
          (let c1 = c\<lparr> state := (state c)\<lparr> status := AwaitingSelection \<rparr> \<rparr>
           in Some (suspend At_START_SELECT (emit (Deliver (tabId (state c1)) START_SELECT) c1)))
      | Rejected e \<Rightarrow> Some (catch_in fr e c)
      | _ \<Rightarrow> None)"

definition START_SELECT_resume :: "config \<Rightarrow> config" where
  "START_SELECT_resume c = notifyState (tabId (state c)) ''selecting'' SelectPrompt c"

text \<open>\<^verbatim>\<open>startWorkflow\<close> up to \<^verbatim>\<open>await apiGetJobs()\<close>, and its continuation.\<close>

definition startWorkflow :: "tab_id \<Rightarrow> config \<Rightarrow> config" where
  "startWorkflow t c =
     (let c1 = c\<lparr> state := (state c)\<lparr> status := Fetching, tabId := Some t, index := 0, jobs := [] \<rparr> \<rparr>;
          c2 = notifyState (Some t) ''idle'' LoadingList c1
      in suspend (At_apiGetJobs t) (emit HttpGetJobs c2))"

definition startWorkflow_resume :: "url_parser \<Rightarrow> tab_id \<Rightarrow> result \<Rightarrow> config \<Rightarrow> config option" where
  "startWorkflow_resume P t r c =
     (case r of
        Fulfilled_jobs js \<Rightarrow>
          if length js = 0 then Some (catch_in (In_startWorkflow t) EmptyQueue c)
          else Some (processCurrentJob P (In_startWorkflow t)
                       (c\<lparr> state := (state c)\<lparr> jobs := js, status := Navigating \<rparr> \<rparr>))
      | Rejected e \<Rightarrow> Some (catch_in (In_startWorkflow t) e c)
      | _ \<Rightarrow> None)"

text \<open>\<^verbatim>\<open>handleSave\<close> up to \<^verbatim>\<open>await captureVisibleTab\<close>, and its continuations.\<close>

definition handleSave :: "rect option \<Rightarrow> config \<Rightarrow> config" where
  "handleSave r c =
     (let c1 = c\<lparr> state := (state c)\<lparr> status := Uploading \<rparr> \<rparr> in
      case getJobAt (jobs (state c1)) (index (state c1)) of
        None \<Rightarrow> catch_in In_handleSave JobNotFound c1
      | Some j \<Rightarrow> suspend (At_captureVisibleTab j r) (emit CaptureVisibleTab c1))"

definition capture_resume :: "job \<Rightarrow> rect option \<Rightarrow> result \<Rightarrow> config \<Rightarrow> config option" where
  "capture_resume j r res c =
     (case res of
        Fulfilled \<Rightarrow> Some (suspend (At_loadImage j r) (emit LoadImage c))
      | Rejected e \<Rightarrow> Some (catch_in In_handleSave e c)
      | _ \<Rightarrow> None)"

definition loadImage_resume :: "job \<Rightarrow> rect option \<Rightarrow> result \<Rightarrow> config \<Rightarrow> config option" where
  "loadImage_resume j r res c =
     (case res of
        Fulfilled_image width height \<Rightarrow>
          (case r of
             None \<Rightarrow> Some (catch_in In_handleSave TypeError c)
           | Some rc \<Rightarrow>
               (case cropDataUrl width height rc of
                  Inl e \<Rightarrow> Some (catch_in In_handleSave e c)
                | Inr (sx, sy, sw, sh) \<Rightarrow>
                    Some (suspend (At_convertToBlob j rc) (emit (DrawImage sx sy sw sh) c))))
      | Rejected e \<Rightarrow> Some (catch_in In_handleSave e c)
      | _ \<Rightarrow> None)"

definition convertToBlob_resume :: "job \<Rightarrow> rect \<Rightarrow> result \<Rightarrow> config \<Rightarrow> config option" where
  "convertToBlob_resume j rc res c =
     (case res of
        Fulfilled \<Rightarrow> Some (suspend (At_apiUpload j) (emit (HttpPostUpload j rc) c))
      | Rejected e \<Rightarrow> Some (catch_in In_handleSave e c)
      | _ \<Rightarrow> None)"

definition apiUpload_resume :: "url_parser \<Rightarrow> result \<Rightarrow> config \<Rightarrow> config option" where
  "apiUpload_resume P res c =
     (case res of
        Fulfilled \<Rightarrow>
          Some (processCurrentJob P In_handleSave
                  (c\<lparr> state := (state c)\<lparr> index := index (state c) + 1 \<rparr> \<rparr>))
      | Rejected e \<Rightarrow> Some (catch_in In_handleSave e c)
      | _ \<Rightarrow> None)"

text \<open>\<^verbatim>\<open>syncUiState\<close>, \<^verbatim>\<open>broadcastUiVisibility\<close> and the toolbar button.\<close>

definition syncUiState :: "tab_id \<Rightarrow> config \<Rightarrow> config" where
  "syncUiState t c =
     (if status (state c) = AwaitingSelection then
        suspend (At_syncUiState_send t) (emit (Deliver (Some t) START_SELECT) c)
      else notifyState (Some t) ''idle'' Ready c)"

definition has_id :: "tab_id option \<Rightarrow> bool" where
  "has_id t = (case t of None \<Rightarrow> False | Some i \<Rightarrow> i \<noteq> 0)"

fun broadcast_loop :: "tab_id option list \<Rightarrow> config \<Rightarrow> config" where
  "broadcast_loop [] c = c"
| "broadcast_loop (None # ts) c = broadcast_loop ts c"
| "broadcast_loop (Some i # ts) c =
     (if \<not> has_id (Some i) then broadcast_loop ts c
      else suspend (At_TOGGLE_UI ts) (emit (Post i (TOGGLE_UI (isUiVisible c))) c))"

definition broadcastUiVisibility :: "config \<Rightarrow> config" where
  "broadcastUiVisibility c = suspend At_tabs_query (emit TabsQuery c)"

definition action_onClicked :: "tab_id option \<Rightarrow> config \<Rightarrow> config" where
  "action_onClicked t c =
     (case t of
        None \<Rightarrow> c
      | Some i \<Rightarrow>
          if \<not> has_id (Some i) then c
          else (let c1 = c\<lparr> isUiVisible := \<not> isUiVisible c \<rparr>
                in suspend At_action_send (emit (Post i (TOGGLE_UI (isUiVisible c1))) c1)))"

text \<open>
  \<^verbatim>\<open>sender.tab?.id !== state.tabId\<close>: the left side is \<^verbatim>\<open>undefined\<close> (\<open>None\<close>) or a
  number, the right side \<^verbatim>\<open>null\<close> (\<open>None\<close>) or a number, and \<^verbatim>\<open>undefined\<close> is not
  \<^verbatim>\<open>null\<close>.
\<close>

definition differs :: "tab_id option \<Rightarrow> tab_id option \<Rightarrow> bool" where
  "differs sender_tab state_tab =
     (case sender_tab of None \<Rightarrow> True | Some t \<Rightarrow> state_tab \<noteq> Some t)"

text \<open>The listener of \<^verbatim>\<open>chrome.runtime.onMessage\<close>; \<open>sender_tab\<close> is \<^verbatim>\<open>sender.tab?.id\<close>.\<close>

definition onMessage :: "in_msg \<Rightarrow> tab_id option \<Rightarrow> config \<Rightarrow> config" where
  "onMessage msg sender_tab c =
     (case mtype msg of
        None \<Rightarrow> c
      | Some ty \<Rightarrow>
          if ty = [] then c
          else if ty = ''UI_START'' then
            (if status (state c) \<noteq> Idle then c
             else case sender_tab of None \<Rightarrow> c | Some t \<Rightarrow> startWorkflow t c)
          else if ty = ''UI_SAVE'' then
            (if status (state c) \<noteq> AwaitingSelection then c
             else if differs sender_tab (tabId (state c)) then c
             else handleSave (mrect msg) c)
          else if ty = ''UI_CANCEL'' then
            (if differs sender_tab (tabId (state c)) then c
             else resetState Ready True c)
          else if ty = ''UI_READY'' then
            (case sender_tab of None \<Rightarrow> c | Some t \<Rightarrow> syncUiState t c)
          else if ty = ''HIDE_UI'' then
            broadcastUiVisibility (c\<lparr> isUiVisible := False \<rparr>)
          else c)"

text \<open>
  Resuming a pending task with the result of the operation it awaits. A call of
  \<^verbatim>\<open>sendMessageWithRetry\<close> settles with a boolean; a result of the wrong shape for the
  task is no step (\<open>None\<close>).
\<close>

fun resume :: "url_parser \<Rightarrow> task \<Rightarrow> result \<Rightarrow> config \<Rightarrow> config option" where
  "resume P (At_apiGetJobs t) r c = startWorkflow_resume P t r c"
| "resume P (At_navigate fr) r c = navigate_resume fr r c"
| "resume P At_START_SELECT (Delivered b) c = Some (START_SELECT_resume c)"
| "resume P (At_captureVisibleTab j rc) r c = capture_resume j rc r c"
| "resume P (At_loadImage j rc) r c = loadImage_resume j rc r c"
| "resume P (At_convertToBlob j rc) r c = convertToBlob_resume j rc r c"
| "resume P (At_apiUpload j) r c = apiUpload_resume P r c"
| "resume P (At_resetState_send m) (Delivered b) c = Some (resetState_resume m c)"
| "resume P (At_reportError_send t e) (Delivered b) c = Some (reportError_resume t e c)"
| "resume P (At_syncUiState_send t) (Delivered b) c =
     Some (notifyState (Some t) ''selecting'' SelectPrompt c)"
| "resume P At_tabs_query (Fulfilled_tabs ts) c = Some (broadcast_loop ts c)"
| "resume P (At_TOGGLE_UI ts) Fulfilled c = Some (broadcast_loop ts c)"
| "resume P (At_TOGGLE_UI ts) (Rejected e) c = Some (broadcast_loop ts c)"
| "resume P At_action_send Fulfilled c = Some c"
| "resume P At_action_send (Rejected e) c = Some (emit (ConsoleError e) c)"
| "resume P _ _ c = None"

text \<open>
  Events of the service worker: an inbound message, the \<open>k\<close>-th pending operation
  settling, a click on the toolbar button.
\<close>

datatype event =
    Message in_msg "tab_id option"
  | Settles nat result
  | ActionClicked "tab_id option"

definition step :: "url_parser \<Rightarrow> config \<Rightarrow> event \<Rightarrow> config option" where
  "step P c ev =
     (case ev of
        Message m sender_tab \<Rightarrow> Some (onMessage m sender_tab c)
      | Settles k r \<Rightarrow>
          if k < length (pending c) then
            resume P (pending c ! k) r
              (c\<lparr> pending := take k (pending c) @ drop (Suc k) (pending c) \<rparr>)
          else None
      | ActionClicked t \<Rightarrow> Some (action_onClicked t c))"

fun run :: "url_parser \<Rightarrow> config \<Rightarrow> event list \<Rightarrow> config option" where
  "run P c [] = Some c"
| "run P c (ev # evs) = (case step P c ev of None \<Rightarrow> None | Some c' \<Rightarrow> run P c' evs)"

text \<open>Tasks whose continuation assigns no field of \<^verbatim>\<open>state\<close>.\<close>

fun inert :: "task \<Rightarrow> bool" where
  "inert At_START_SELECT = True"
| "inert (At_syncUiState_send t) = True"
| "inert At_tabs_query = True"
| "inert (At_TOGGLE_UI ts) = True"
| "inert At_action_send = True"
| "inert t = False"

text \<open>A list of inbound messages, each with its sender's tab, handled back to back.\<close>

fun receive_all :: "(in_msg \<times> tab_id option) list \<Rightarrow> config \<Rightarrow> config" where
  "receive_all [] c = c"
| "receive_all ((m, s) # ms) c = receive_all ms (onMessage m s c)"

text \<open>Abbreviations for the inbound messages.\<close>

definition signal :: "string \<Rightarrow> in_msg" where
  "signal ty = \<lparr> mtype = Some ty, mrect = None \<rparr>"

definition save_selection :: "rect \<Rightarrow> in_msg" where
  "save_selection r = \<lparr> mtype = Some ''UI_SAVE'', mrect = Some r \<rparr>"

subsection \<open>Phases of a navigation wait\<close>

text \<open>
  The four phases a call of \<^verbatim>\<open>navigate\<close> for tab \<open>t\<close> can be in after the events
  \<open>es\<close>, each with the part of the history that leads to it. They are the invariant
  of the proofs below.
\<close>

definition waiting :: "tab_id \<Rightarrow> nav_event list \<Rightarrow> nav \<Rightarrow> bool" where
  "waiting t es n \<longleftrightarrow>
     \<not> settled n \<and> timeout_armed n = Some 60000 \<and> settle_armed n = None \<and> listener_on n
     \<and> outcomes n = [] \<and> load_complete t \<notin> set es \<and> TimerFires TimeoutTimer \<notin> set es"

definition settling :: "tab_id \<Rightarrow> nav_event list \<Rightarrow> nav \<Rightarrow> bool" where
  "settling t es n \<longleftrightarrow>
     settled n \<and> timeout_armed n = None \<and> settle_armed n = Some 250 \<and> \<not> listener_on n
     \<and> outcomes n = []
     \<and> (\<exists>es1 es2. es = es1 @ load_complete t # es2 \<and> TimerFires TimeoutTimer \<notin> set es1)"

definition resolved :: "tab_id \<Rightarrow> nav_event list \<Rightarrow> nav \<Rightarrow> bool" where
  "resolved t es n \<longleftrightarrow>
     settled n \<and> timeout_armed n = None \<and> settle_armed n = None \<and> \<not> listener_on n
     \<and> (\<exists>pre. calls n = pre @ [Resolve] \<and> filter is_outcome pre = [])
     \<and> (\<exists>es1 es2 es3. es = es1 @ load_complete t # es2 @ TimerFires SettleTimer # es3
           \<and> TimerFires TimeoutTimer \<notin> set es1)"

definition rejected :: "tab_id \<Rightarrow> nav_event list \<Rightarrow> nav \<Rightarrow> bool" where
  "rejected t es n \<longleftrightarrow>
     settled n \<and> timeout_armed n = None \<and> settle_armed n = None \<and> \<not> listener_on n
     \<and> (\<exists>pre. calls n = pre @ [Reject NavigationTimeout] \<and> filter is_outcome pre = [])
     \<and> (\<exists>es1 es2. es = es1 @ TimerFires TimeoutTimer # es2 \<and> load_complete t \<notin> set es1)"

subsection \<open>Sample data for the worked examples\<close>

text \<open>A parser table that knows four URLs, standing for \<^verbatim>\<open>new URL\<close> in the examples.\<close>

definition sample_parser :: url_parser where
  "sample_parser s =
     (if s = ''http://a.example/docs/1'' then
        Some \<lparr> protocol = ''http:'', origin = ''http://a.example'', pathname = ''/docs/1'' \<rparr>
      else if s = ''http://a.example/docs'' then
        Some \<lparr> protocol = ''http:'', origin = ''http://a.example'', pathname = ''/docs'' \<rparr>
      else if s = ''https://b.example/'' then
        Some \<lparr> protocol = ''https:'', origin = ''https://b.example'', pathname = ''/'' \<rparr>
      else if s = ''ftp://a.example/docs/1'' then
        Some \<lparr> protocol = ''ftp:'', origin = ''ftp://a.example'', pathname = ''/docs/1'' \<rparr>
      else None)"

definition job1 :: job where
  "job1 = \<lparr> job_id = ''1'', job_url = ''http://a.example/docs/1'' \<rparr>"

definition job2 :: job where
  "job2 = \<lparr> job_id = ''2'', job_url = ''https://b.example/'' \<rparr>"


definition rect1 :: rect where
  "rect1 = num_rect 10 20 300 200"


text \<open>
  The worker after a start from tab 7, a queue of two jobs and a completed navigation to
  the first: it waits for the selection.
\<close>

definition selecting :: config where
  "selecting =
     \<lparr> state = \<lparr> status = AwaitingSelection, jobs = [job1, job2], index = 0, tabId = Some 7 \<rparr>,
       isUiVisible = True, pending = [],
       trace = [Post 7 (UI_STATE ''idle'' LoadingList), HttpGetJobs,
                Navigate (Some 7) ''http://a.example/docs/1'', Deliver (Some 7) START_SELECT,
                Post 7 (UI_STATE ''selecting'' SelectPrompt)] \<rparr>"

section \<open>Image cropper\<close>



lemma clamp_NaN [simp]: "clamp NaN lo hi = NaN" "clamp v lo NaN = NaN"
  by (simp_all add: clamp_def Math_max_def Math_min_def split: jsnum.splits)

lemma js_minus_Num [simp]: "js_minus (Num a) (Num b) = Num (a - b)"
  by (simp add: js_minus_def)

lemma js_minus_NaN [simp]: "js_minus a NaN = NaN"
  by (simp add: js_minus_def split: jsnum.splits)

lemma js_less_Num [simp]: "js_less (Num a) (Num b) \<longleftrightarrow> a < b"
  by (simp add: js_less_def)

lemma js_less_NaN [simp]: "\<not> js_less NaN b"
  by (simp add: js_less_def)










section \<open>Reliable messenger\<close>

lemma sendLoop_never:
  "sendLoop (\<lambda>k. False) t m n i log =
     (False, log @ concat (replicate (nat (n - i)) [SendOnce t m, DelayMs 200])
               @ [WarnUndelivered t n (messageType m)])"
proof (induction "\<lambda>k::nat. False" t m n i log rule: sendLoop.induct)
  case (1 tab m attempts i log)
  show ?case
  proof (cases "i < attempts")
    case True
    then have eq: "nat (attempts - i) = Suc (nat (attempts - (i + 1)))" by simp
    from True 1 show ?thesis
      by (subst sendLoop.simps) (simp add: eq)
  next
    case False
    then show ?thesis by (subst sendLoop.simps) simp
  qed
qed

lemma messageType_Some: "messageType m = Some (message_type m)"
  by (cases m) (simp_all add: messageType_def)

text \<open>
  Claim C7: with a recipient that never acknowledges, \<^verbatim>\<open>sendMessageWithRetry\<close> makes
  exactly as many send attempts as its attempts parameter says (10 when it is omitted),
  each followed by the fixed 200 ms delay, then logs a warning that carries the attempt
  count and the message type, and returns false. It has no failing outcome.
\<close>

theorem retry_exhausts_attempts:
  assumes "\<forall>k. \<not> ack k"
      and "n = (case attempts_arg of None \<Rightarrow> 10 | Some a \<Rightarrow> a)"
  shows "sendMessageWithRetry ack t m attempts_arg =
           (False, concat (replicate (nat n) [SendOnce t m, DelayMs 200])
                     @ [WarnUndelivered t n (Some (message_type m))])"
proof -
  from assms(1) have "ack = (\<lambda>k. False)" by auto
  then show ?thesis
    using assms(2) sendLoop_never[of t m n 0 "[]"]
    by (simp add: sendMessageWithRetry_def messageType_Some)
qed

theorem retry_exhausts_attempts_witness:
  "sendMessageWithRetry (\<lambda>k. False) 7 START_SELECT None =
     (False,
      [SendOnce 7 START_SELECT, DelayMs 200, SendOnce 7 START_SELECT, DelayMs 200,
       SendOnce 7 START_SELECT, DelayMs 200, SendOnce 7 START_SELECT, DelayMs 200,
       SendOnce 7 START_SELECT, DelayMs 200, SendOnce 7 START_SELECT, DelayMs 200,
       SendOnce 7 START_SELECT, DelayMs 200, SendOnce 7 START_SELECT, DelayMs 200,
       SendOnce 7 START_SELECT, DelayMs 200, SendOnce 7 START_SELECT, DelayMs 200,
       WarnUndelivered 7 10 (Some ''START_SELECT'')])"
proof -
  have ten: "replicate (nat 10) [SendOnce (7::nat) START_SELECT, DelayMs 200]
      = replicate (Suc (Suc (Suc (Suc (Suc (Suc (Suc (Suc (Suc (Suc 0))))))))))
          [SendOnce 7 START_SELECT, DelayMs 200]"
    by (simp add: eval_nat_numeral)
  show ?thesis
    using retry_exhausts_attempts[of "\<lambda>k. False" 10 None 7 START_SELECT]
    unfolding ten by simp
qed

section \<open>Allow policy\<close>

lemma some_js_iff: "some_js f xs \<longleftrightarrow> (\<exists>a \<in> set xs. f a)"
  by (induction xs) auto

lemma entry_matches_iff:
  "entry_matches P uo a \<longleftrightarrow>
     (\<exists>ao. P a = Some ao \<and> origin ao = origin uo \<and> prefix (pathname ao) (pathname uo))"
  by (cases "P a") (auto simp: entry_matches_def)

lemma isAllowedIn_policy: "isAllowedIn P al u = allow_policy P al u"
proof (cases "P u")
  case None
  then show ?thesis by (simp add: isAllowedIn_def allow_policy_def)
next
  case (Some uo)
  have h: "\<And>A B W E.
      (if \<not> A \<and> \<not> B then False else if W then True else E) = ((A \<or> B) \<and> (W \<or> E))"
    by auto
  from Some show ?thesis
    unfolding isAllowedIn_def allow_policy_def some_js_iff entry_matches_iff
    by (simp only: option.case option.inject simp_thms ex_simps h)
qed

text \<open>
  Claim C9: \<^verbatim>\<open>isAllowed\<close> returns true exactly when the URL parses with scheme http or
  https and either the allow-list contains the wildcard entry or some entry of the list
  has the candidate's origin and a pathname that is a prefix of the candidate's; an
  unparseable URL and a URL of another scheme are rejected.
\<close>

theorem isAllowed_exact:
  "isAllowedIn P allow_list u = allow_policy P allow_list u
   \<and> isAllowed P u = allow_policy P ALLOW_LIST u
   \<and> (P u = None \<longrightarrow> \<not> isAllowedIn P allow_list u)
   \<and> (\<forall>uo. P u = Some uo \<longrightarrow> protocol uo \<noteq> ''http:'' \<longrightarrow> protocol uo \<noteq> ''https:''
         \<longrightarrow> \<not> isAllowedIn P allow_list u)"
  by (simp add: isAllowedIn_policy isAllowed_def) (auto simp: allow_policy_def)

theorem isAllowed_exact_witness:
  "isAllowedIn sample_parser [''http://a.example/docs''] ''http://a.example/docs/1''
   \<and> \<not> isAllowedIn sample_parser [''http://a.example/docs''] ''https://b.example/''
   \<and> isAllowed sample_parser ''https://b.example/''
   \<and> \<not> isAllowedIn sample_parser [''<all_urls>''] ''ftp://a.example/docs/1''
   \<and> \<not> isAllowedIn sample_parser [''<all_urls>''] ''not a url''"
  using isAllowed_exact[of sample_parser "[''http://a.example/docs'']" "''http://a.example/docs/1''"]
        isAllowed_exact[of sample_parser "[''http://a.example/docs'']" "''https://b.example/''"]
        isAllowed_exact[of sample_parser "[''<all_urls>'']" "''ftp://a.example/docs/1''"]
        isAllowed_exact[of sample_parser "[''<all_urls>'']" "''not a url''"]
  by (simp add: allow_policy_def sample_parser_def ALLOW_LIST_def)

section \<open>Navigation waiter\<close>

lemma nav_run_snoc: "nav_run n (es @ [e]) = nav_step (nav_run n es) e"
  by (simp add: nav_run_def)

lemma after_outcome_last:
  "calls n = pre @ [c] \<Longrightarrow> filter is_outcome pre = [] \<Longrightarrow> is_outcome c \<Longrightarrow> after_outcome n = []"
  by (simp add: after_outcome_def filter_empty_conv dropWhile_append2)

lemma waiting_step:
  assumes "waiting t es n" "nav_tab n = t"
  shows "waiting t (es @ [e]) (nav_step n e) \<or> settling t (es @ [e]) (nav_step n e)
         \<or> rejected t (es @ [e]) (nav_step n e)"
proof (cases e)
  case (TimerFires tm)
  show ?thesis
  proof (cases tm)
    case TimeoutTimer
    have "rejected t (es @ [e]) (nav_step n e)"
      using assms TimerFires TimeoutTimer
      unfolding rejected_def waiting_def nav_step_def on_timeout_def outcomes_def
      by (auto intro: exI[of _ es])
    then show ?thesis by simp
  next
    case SettleTimer
    have "waiting t (es @ [e]) (nav_step n e)"
      using assms TimerFires SettleTimer
      unfolding waiting_def nav_step_def outcomes_def load_complete_def by auto
    then show ?thesis by simp
  qed
next
  case (TabUpdated t' st)
  show ?thesis
  proof (cases "t' = t \<and> st = Some ''complete''")
    case True
    have "settling t (es @ [e]) (nav_step n e)"
      using assms TabUpdated True
      unfolding settling_def waiting_def nav_step_def listener_def outcomes_def load_complete_def Let_def
      by (auto intro: exI[of _ es])
    then show ?thesis by simp
  next
    case False
    have "waiting t (es @ [e]) (nav_step n e)"
      using assms TabUpdated False
      unfolding  waiting_def nav_step_def listener_def outcomes_def load_complete_def Let_def
      by auto
    then show ?thesis by simp
  qed
qed

lemma nav_tab_step: "nav_tab (nav_step n e) = nav_tab n"
  by (auto simp: nav_step_def on_timeout_def listener_def Let_def split: nav_event.splits timer.splits option.splits)

lemma nav_tab_run: "nav_tab (nav_run n es) = nav_tab n"
  by (induction es rule: rev_induct) (simp_all add: nav_run_def nav_tab_step)

lemma settling_step:
  assumes "settling t es n"
  shows "settling t (es @ [e]) (nav_step n e) \<or> resolved t (es @ [e]) (nav_step n e)"
proof -
  from assms obtain es1 es2 where
    es: "es = es1 @ load_complete t # es2" "TimerFires TimeoutTimer \<notin> set es1"
    unfolding settling_def by blast
  from assms have st: "settled n" "timeout_armed n = None" "settle_armed n = Some 250"
    "\<not> listener_on n" "filter is_outcome (calls n) = []"
    unfolding settling_def outcomes_def by simp_all
  show ?thesis
  proof (cases "e = TimerFires SettleTimer")
    case True
    have "es @ [e] = es1 @ load_complete t # es2 @ TimerFires SettleTimer # []"
      using es True by simp
    with es(2) have hist:
      "\<exists>es1 es2 es3. es @ [e] = es1 @ load_complete t # es2 @ TimerFires SettleTimer # es3
          \<and> TimerFires TimeoutTimer \<notin> set es1"
      by blast
    have "nav_step n e = n\<lparr> settle_armed := None, calls := calls n @ [Resolve] \<rparr>"
      using True st by (simp add: nav_step_def)
    then have "resolved t (es @ [e]) (nav_step n e)"
      using st hist unfolding resolved_def by simp
    then show ?thesis by simp
  next
    case False
    have "es @ [e] = es1 @ load_complete t # (es2 @ [e])"
      using es by simp
    with es(2) have hist:
      "\<exists>es1 es2. es @ [e] = es1 @ load_complete t # es2 \<and> TimerFires TimeoutTimer \<notin> set es1"
      by blast
    have "nav_step n e = n"
      using False st by (auto simp: nav_step_def split: nav_event.splits timer.splits)
    then have "settling t (es @ [e]) (nav_step n e)"
      using st hist unfolding settling_def outcomes_def by simp
    then show ?thesis by simp
  qed
qed

lemma resolved_step:
  assumes "resolved t es n"
  shows "resolved t (es @ [e]) (nav_step n e)"
proof -
  from assms obtain es1 es2 es3 where
    es: "es = es1 @ load_complete t # es2 @ TimerFires SettleTimer # es3"
        "TimerFires TimeoutTimer \<notin> set es1"
    unfolding resolved_def by blast
  have h: "es @ [e] = es1 @ load_complete t # es2 @ TimerFires SettleTimer # (es3 @ [e])"
    using es by simp
  have same: "nav_step n e = n"
    using assms unfolding resolved_def nav_step_def
    by (auto split: nav_event.splits timer.splits)
  show ?thesis
    using assms es(2) h unfolding same resolved_def by blast
qed

lemma rejected_step:
  assumes "rejected t es n"
  shows "rejected t (es @ [e]) (nav_step n e)"
proof -
  from assms obtain es1 es2 where
    es: "es = es1 @ TimerFires TimeoutTimer # es2" "load_complete t \<notin> set es1"
    unfolding rejected_def by blast
  have h: "es @ [e] = es1 @ TimerFires TimeoutTimer # (es2 @ [e])"
    using es by simp
  have same: "nav_step n e = n"
    using assms unfolding rejected_def nav_step_def
    by (auto split: nav_event.splits timer.splits)
  show ?thesis
    using assms es(2) h unfolding same rejected_def by blast
qed

lemma nav_phase:
  "let n = nav_run (navigate t u) es in
   waiting t es n \<or> settling t es n \<or> resolved t es n \<or> rejected t es n"
proof (induction es rule: rev_induct)
  case Nil
  then show ?case
    by (simp add: nav_run_def navigate_def waiting_def outcomes_def)
next
  case (snoc e es)
  have tab: "nav_tab (nav_run (navigate t u) es) = t"
    by (simp add: nav_tab_run navigate_def)
  from snoc show ?case
    unfolding Let_def nav_run_snoc
    using waiting_step[OF _ tab, of es e] settling_step[of t es _ e]
          resolved_step[of t es _ e] rejected_step[of t es _ e]
    by blast
qed

lemma outcomes_snoc:
  "calls n = pre @ [c] \<Longrightarrow> filter is_outcome pre = [] \<Longrightarrow> is_outcome c \<Longrightarrow> outcomes n = [c]"
  by (simp add: outcomes_def)

lemma no_outcome_calls:
  "filter is_outcome cs = [] \<Longrightarrow> Resolve \<notin> set cs \<and> (\<forall>e. Reject e \<notin> set cs)"
  by (auto simp: filter_empty_conv)

text \<open>
  Claim C6: a call of \<^verbatim>\<open>navigate\<close> delivers at most one outcome, and exactly one once
  its armed timer fires. It resolves only after a load-complete event of the target tab
  followed by the 250 ms settle timer, and rejects only with NavigationTimeout, when the
  60000 ms timer fires before any load-complete event of that tab. Once settled, on
  either path, the listener is detached, and no call of the listener follows the outcome.
\<close>

theorem navigate_outcome:
  assumes "n = nav_run (navigate t u) es"
  shows "length (outcomes n) \<le> 1
   \<and> (Resolve \<in> set (calls n) \<longrightarrow>
        (\<exists>es1 es2 es3. es = es1 @ load_complete t # es2 @ TimerFires SettleTimer # es3
            \<and> TimerFires TimeoutTimer \<notin> set es1))
   \<and> (\<forall>e. Reject e \<in> set (calls n) \<longrightarrow>
        e = NavigationTimeout
        \<and> (\<exists>es1 es2. es = es1 @ TimerFires TimeoutTimer # es2 \<and> load_complete t \<notin> set es1))
   \<and> (outcomes n \<noteq> [] \<longrightarrow> \<not> listener_on n \<and> after_outcome n = [])
   \<and> (settled n \<longrightarrow> \<not> listener_on n \<and> timeout_armed n = None)
   \<and> (outcomes n = [] \<and> \<not> settled n \<longrightarrow>
        timeout_armed n = Some 60000
        \<and> outcomes (nav_step n (TimerFires TimeoutTimer)) = [Reject NavigationTimeout])
   \<and> (outcomes n = [] \<and> settled n \<longrightarrow>
        settle_armed n = Some 250
        \<and> outcomes (nav_step n (TimerFires SettleTimer)) = [Resolve])
   \<and> (load_complete t \<notin> set es \<longrightarrow>
        outcomes (nav_step n (TimerFires TimeoutTimer)) = [Reject NavigationTimeout])"
proof -
  from nav_phase[of t u es] assms
  consider (w) "waiting t es n" | (s) "settling t es n" | (r) "resolved t es n" | (j) "rejected t es n"
    by (auto simp: Let_def)
  then show ?thesis
  proof cases
    case w
    then have st: "\<not> settled n" "timeout_armed n = Some 60000" "listener_on n"
      "filter is_outcome (calls n) = []" "load_complete t \<notin> set es"
      unfolding waiting_def outcomes_def by simp_all
    have fire: "outcomes (nav_step n (TimerFires TimeoutTimer)) = [Reject NavigationTimeout]"
      using st by (simp add: nav_step_def on_timeout_def outcomes_def)
    from st fire no_outcome_calls[OF st(4)] show ?thesis
      by (simp add: outcomes_def)
  next
    case s
    then have st: "settled n" "timeout_armed n = None" "settle_armed n = Some 250"
      "\<not> listener_on n" "filter is_outcome (calls n) = []" "load_complete t \<in> set es"
      unfolding settling_def outcomes_def by auto
    have fire: "outcomes (nav_step n (TimerFires SettleTimer)) = [Resolve]"
      using st by (simp add: nav_step_def outcomes_def)
    from st fire no_outcome_calls[OF st(5)] show ?thesis
      by (simp add: outcomes_def)
  next
    case r
    then obtain pre where pre: "calls n = pre @ [Resolve]" "filter is_outcome pre = []"
      unfolding resolved_def by blast
    from r have st: "settled n" "timeout_armed n = None" "\<not> listener_on n" "load_complete t \<in> set es"
      unfolding resolved_def by auto
    from r have hist: "\<exists>es1 es2 es3. es = es1 @ load_complete t # es2 @ TimerFires SettleTimer # es3
            \<and> TimerFires TimeoutTimer \<notin> set es1"
      unfolding resolved_def by blast
    have o: "outcomes n = [Resolve]" using pre by (simp add: outcomes_snoc)
    have a: "after_outcome n = []" using pre by (simp add: after_outcome_last)
    have nr: "\<forall>e. Reject e \<notin> set (calls n)"
      using pre no_outcome_calls[OF pre(2)] by simp
    from st hist o a nr show ?thesis by simp
  next
    case j
    then obtain pre where pre: "calls n = pre @ [Reject NavigationTimeout]" "filter is_outcome pre = []"
      unfolding rejected_def by blast
    from j have st: "settled n" "timeout_armed n = None" "\<not> listener_on n"
      unfolding rejected_def by auto
    from j have hist: "\<exists>es1 es2. es = es1 @ TimerFires TimeoutTimer # es2 \<and> load_complete t \<notin> set es1"
      unfolding rejected_def by blast
    have o: "outcomes n = [Reject NavigationTimeout]" using pre by (simp add: outcomes_snoc)
    have a: "after_outcome n = []" using pre by (simp add: after_outcome_last)
    have nr: "Resolve \<notin> set (calls n)" "\<forall>e. Reject e \<in> set (calls n) \<longrightarrow> e = NavigationTimeout"
      using pre no_outcome_calls[OF pre(2)] by auto
    have same: "nav_step n (TimerFires TimeoutTimer) = n"
      using st by (simp add: nav_step_def)
    from st hist o a nr same show ?thesis by simp
  qed
qed

theorem navigate_outcome_witness:
  "outcomes (nav_run (navigate 7 ''http://a.example/'')
      [TabUpdated 7 (Some ''loading''), TabUpdated 8 (Some ''complete''),
       TabUpdated 7 (Some ''complete''), TabUpdated 7 (Some ''complete''), TimerFires SettleTimer,
       TimerFires TimeoutTimer]) = [Resolve]
   \<and> after_outcome (nav_run (navigate 7 ''http://a.example/'')
      [TabUpdated 7 (Some ''loading''), TabUpdated 8 (Some ''complete''),
       TabUpdated 7 (Some ''complete''), TabUpdated 7 (Some ''complete''), TimerFires SettleTimer,
       TimerFires TimeoutTimer]) = []
   \<and> outcomes (nav_run (navigate 7 ''http://a.example/'')
      [TabUpdated 7 (Some ''loading''), TimerFires TimeoutTimer, TabUpdated 7 (Some ''complete'')])
       = [Reject NavigationTimeout]"
  using navigate_outcome[OF refl, of 7 "''http://a.example/''"
      "[TabUpdated 7 (Some ''loading''), TabUpdated 8 (Some ''complete''),
       TabUpdated 7 (Some ''complete''), TabUpdated 7 (Some ''complete''), TimerFires SettleTimer,
       TimerFires TimeoutTimer]"]
  by (simp add: nav_run_def navigate_def nav_step_def listener_def on_timeout_def outcomes_def
        after_outcome_def load_complete_def)

section \<open>Workflow orchestrator\<close>

lemma state_emit [simp]: "state (emit e c) = state c"
  by (simp add: emit_def)

lemma state_suspend [simp]: "state (suspend t c) = state c"
  by (simp add: suspend_def)

lemma state_notifyState [simp]: "state (notifyState tab s m c) = state c"
  by (cases tab) (simp_all add: notifyState_def)

lemma state_reportError:
  "state (reportError e tab c) = (case tab of None \<Rightarrow> idle_state | Some t \<Rightarrow> state c)"
  by (cases tab) (simp_all add: reportError_def reportError_finish_def idle_state_def)

lemma state_reportError_resume [simp]: "state (reportError_resume t e c) = idle_state"
  by (simp add: reportError_resume_def reportError_finish_def idle_state_def)


lemma state_resetState_resume [simp]:
  "state (resetState_resume m c) = (state c)\<lparr> tabId := None \<rparr>"
  by (simp add: resetState_resume_def Let_def)

lemma differs_iff: "\<not> differs s st \<longleftrightarrow> (\<exists>t. s = Some t \<and> st = Some t)"
  by (cases s) (auto simp: differs_def)

lemma onMessage_save:
  assumes "mtype m = Some ''UI_SAVE''"
  shows "onMessage m s c =
     (if status (state c) = AwaitingSelection \<and> (\<exists>t. s = Some t \<and> tabId (state c) = Some t)
      then handleSave (mrect m) c else c)"
  using assms by (simp add: onMessage_def differs_iff[symmetric])

lemma handleSave_status:
  assumes "tabId (state c) \<noteq> None"
  shows "status (state (handleSave r c)) = Uploading"
  using assms
  by (auto simp: handleSave_def Let_def catch_in_def state_reportError split: option.splits)

lemma saves_ignored:
  assumes "status (state c) \<noteq> AwaitingSelection"
      and "\<forall>(m, s) \<in> set ms. mtype m = Some ''UI_SAVE''"
  shows "receive_all ms c = c"
  using assms
proof (induction ms)
  case Nil
  then show ?case by simp
next
  case (Cons a ms)
  obtain m s where a: "a = (m, s)" by (cases a)
  with Cons.prems have "onMessage m s c = c" by (simp add: onMessage_save)
  with Cons a show ?case by simp
qed

lemma saves_at_most_one:
  assumes "\<forall>(m, s) \<in> set ms. mtype m = Some ''UI_SAVE''"
  shows "receive_all ms c = c \<or> (\<exists>(m, s) \<in> set ms. receive_all ms c = handleSave (mrect m) c)"
  using assms
proof (induction ms)
  case Nil
  then show ?case by simp
next
  case (Cons a ms)
  obtain m s where a: "a = (m, s)" by (cases a)
  from Cons.prems a have ty: "mtype m = Some ''UI_SAVE''"
    and rest: "\<forall>(m, s) \<in> set ms. mtype m = Some ''UI_SAVE''" by auto
  show ?case
  proof (cases "status (state c) = AwaitingSelection \<and> (\<exists>t. s = Some t \<and> tabId (state c) = Some t)")
    case True
    then have acted: "onMessage m s c = handleSave (mrect m) c"
      using ty by (simp add: onMessage_save)
    from True have "status (state (handleSave (mrect m) c)) \<noteq> AwaitingSelection"
      by (auto simp: handleSave_status)
    then have "receive_all ms (handleSave (mrect m) c) = handleSave (mrect m) c"
      using rest by (rule saves_ignored)
    with acted a show ?thesis by auto
  next
    case False
    have "onMessage m s c = c"
      by (simp only: onMessage_save[OF ty] False if_False)
    with Cons.IH[OF rest] a show ?thesis by auto
  qed
qed

lemmas worker_defs =
  step_def onMessage_def signal_def save_selection_def startWorkflow_def startWorkflow_resume_def
  handleSave_def capture_resume_def loadImage_resume_def convertToBlob_resume_def
  apiUpload_resume_def processCurrentJob_def navigate_resume_def START_SELECT_resume_def
  resetState_def resetState_resume_def reportError_def reportError_resume_def
  reportError_finish_def catch_in_def syncUiState_def broadcastUiVisibility_def
  notifyState_def emit_def suspend_def differs_def getJobAt_def initial_def idle_state_def
  isAllowed_def isAllowedIn_def ALLOW_LIST_def Let_def

lemmas sample_defs = sample_parser_def job1_def job2_def rect1_def

text \<open>
  Claim C1 on the code. After a start and a cancel from tab 7 the status is idle while
  tabId still holds 7, because \<^verbatim>\<open>resetState\<close> clears it only after its message is
  delivered. A second cancel from tab 7, received in that idle status, passes the guard
  and starts \<^verbatim>\<open>resetState\<close> again (a third pending task); when that task settles it
  clears tabId. The last two runs differ by the second cancel alone: without it a later
  start from tab 8 keeps its tabId, with it the continuation of the second cancel clears
  the tabId of the new run.
\<close>

theorem duplicate_cancel_in_reset_window:
  "map_option state (run sample_parser initial
       [Message (signal ''UI_START'') (Some 7), Message (signal ''UI_CANCEL'') (Some 7)])
     = Some \<lparr> status = Idle, jobs = [], index = 0, tabId = Some 7 \<rparr>
   \<and> map_option pending (run sample_parser initial
       [Message (signal ''UI_START'') (Some 7), Message (signal ''UI_CANCEL'') (Some 7),
        Message (signal ''UI_CANCEL'') (Some 7)])
     = Some [At_apiGetJobs 7, At_resetState_send Ready, At_resetState_send Ready]
   \<and> map_option state (run sample_parser initial
       [Message (signal ''UI_START'') (Some 7), Message (signal ''UI_CANCEL'') (Some 7),
        Message (signal ''UI_CANCEL'') (Some 7), Settles 2 (Delivered True)])
     = Some \<lparr> status = Idle, jobs = [], index = 0, tabId = None \<rparr>
   \<and> map_option state (run sample_parser initial
       [Message (signal ''UI_START'') (Some 7), Message (signal ''UI_CANCEL'') (Some 7),
        Settles 1 (Delivered True), Message (signal ''UI_START'') (Some 8)])
     = Some \<lparr> status = Fetching, jobs = [], index = 0, tabId = Some 8 \<rparr>
   \<and> map_option state (run sample_parser initial
       [Message (signal ''UI_START'') (Some 7), Message (signal ''UI_CANCEL'') (Some 7),
        Message (signal ''UI_CANCEL'') (Some 7),
        Settles 1 (Delivered True), Message (signal ''UI_START'') (Some 8),
        Settles 1 (Delivered True)])
     = Some \<lparr> status = Fetching, jobs = [], index = 0, tabId = None \<rparr>"
  by (simp add: worker_defs)

text \<open>
  Claim C4 on the code: \<^verbatim>\<open>resetState\<close> sets the status to idle before it awaits the
  delivery of its message and clears tabId after it. After a start and a cancel from tab
  7 the status is idle and tabId is 7. When the delivery then settles and the pending
  fetch returns a job, the status is navigating and tabId is absent; and a start from
  tab 8 accepted before the delivery settles loses its tabId while the status is fetching.
\<close>

theorem reset_window_breaks_invariant:
  "map_option state (run sample_parser initial
       [Message (signal ''UI_START'') (Some 7), Message (signal ''UI_CANCEL'') (Some 7)])
     = Some \<lparr> status = Idle, jobs = [], index = 0, tabId = Some 7 \<rparr>
   \<and> map_option state (run sample_parser initial
       [Message (signal ''UI_START'') (Some 7), Message (signal ''UI_CANCEL'') (Some 7),
        Settles 1 (Delivered True), Settles 0 (Fulfilled_jobs [job1])])
     = Some \<lparr> status = Navigating, jobs = [job1], index = 0, tabId = None \<rparr>
   \<and> map_option state (run sample_parser initial
       [Message (signal ''UI_START'') (Some 7), Message (signal ''UI_CANCEL'') (Some 7),
        Message (signal ''UI_START'') (Some 8), Settles 1 (Delivered True)])
     = Some \<lparr> status = Fetching, jobs = [], index = 0, tabId = None \<rparr>"
  by (simp add: worker_defs sample_defs)

lemma differs_absent: "st = None \<or> s \<noteq> st \<Longrightarrow> differs s st"
  by (cases s) (auto simp: differs_def)

lemma onMessage_start_busy:
  "mtype m = Some ''UI_START'' \<Longrightarrow> status (state c) \<noteq> Idle \<Longrightarrow> onMessage m s c = c"
  by (simp add: onMessage_def)

lemma onMessage_save_ignored:
  "mtype m = Some ''UI_SAVE'' \<Longrightarrow>
   status (state c) \<noteq> AwaitingSelection \<or> tabId (state c) = None \<or> s \<noteq> tabId (state c) \<Longrightarrow>
   onMessage m s c = c"
  using differs_absent[of "tabId (state c)" s] by (auto simp: onMessage_def)

lemma onMessage_cancel_ignored:
  "mtype m = Some ''UI_CANCEL'' \<Longrightarrow> tabId (state c) = None \<or> s \<noteq> tabId (state c) \<Longrightarrow>
   onMessage m s c = c"
  using differs_absent[of "tabId (state c)" s] by (auto simp: onMessage_def)

lemma onMessage_cancel_accepted:
  "mtype m = Some ''UI_CANCEL'' \<Longrightarrow> s = Some t \<Longrightarrow> tabId (state c) = Some t \<Longrightarrow>
   onMessage m s c = resetState Ready True c"
  by (simp add: onMessage_def differs_def)

lemma broadcast_loop_inert:
  "state (broadcast_loop ts c) = state c
   \<and> (\<exists>new. pending (broadcast_loop ts c) = pending c @ new \<and> list_all inert new)"
proof (induction ts c rule: broadcast_loop.induct)
  case (1 c)
  then show ?case by simp
next
  case (2 ts c)
  then show ?case by simp
next
  case (3 i ts c)
  show ?case
  proof (cases "has_id (Some i)")
    case True
    then show ?thesis by (simp add: suspend_def emit_def)
  next
    case False
    with 3 show ?thesis by simp
  qed
qed

lemma onMessage_other:
  assumes "mtype m \<noteq> Some ''UI_START''" "mtype m \<noteq> Some ''UI_SAVE''" "mtype m \<noteq> Some ''UI_CANCEL''"
  shows "state (onMessage m s c) = state c
     \<and> (\<exists>new. pending (onMessage m s c) = pending c @ new \<and> list_all inert new)"
proof (cases "mtype m")
  case None
  then show ?thesis by (simp add: onMessage_def)
next
  case (Some ty)
  with assms have ne: "ty \<noteq> ''UI_START''" "ty \<noteq> ''UI_SAVE''" "ty \<noteq> ''UI_CANCEL''" by simp_all
  have "onMessage m s c =
     (if ty = [] then c
      else if ty = ''UI_READY'' then (case s of None \<Rightarrow> c | Some t \<Rightarrow> syncUiState t c)
      else if ty = ''HIDE_UI'' then broadcastUiVisibility (c\<lparr> isUiVisible := False \<rparr>)
      else c)"
    using Some ne by (simp add: onMessage_def)
  then show ?thesis
    by (cases s) (simp_all add: syncUiState_def broadcastUiVisibility_def suspend_def emit_def notifyState_def)
qed

lemma inert_resume:
  assumes "inert t" "resume P t r c = Some c'"
  shows "state c' = state c \<and> (\<exists>new. pending c' = pending c @ new \<and> list_all inert new)"
proof (cases t)
  case At_START_SELECT
  with assms(2) show ?thesis
    by (cases r) (auto simp: START_SELECT_resume_def notifyState_def emit_def split: option.splits)
next
  case (At_syncUiState_send x)
  with assms(2) show ?thesis
    by (cases r) (auto simp: notifyState_def emit_def)
next
  case At_tabs_query
  with assms(2) show ?thesis
    using broadcast_loop_inert by (cases r) auto
next
  case (At_TOGGLE_UI ts)
  with assms(2) show ?thesis
    using broadcast_loop_inert by (cases r) auto
next
  case At_action_send
  with assms(2) show ?thesis by (cases r) (auto simp: emit_def)
qed (use assms(1) in simp_all)

text \<open>
  Where tabId is absent whenever the status is idle, the guards of the listener do what
  they are meant to: a start while the status is not idle, a save while it is idle, a
  cancel while tabId is absent or from another sender change nothing, and every other
  signal leaves status, jobs, index and tabId unchanged and starts only continuations
  that never assign them.
\<close>

lemma guards_reject:
  "(mtype m = Some ''UI_START'' \<longrightarrow> status (state c) \<noteq> Idle \<longrightarrow> onMessage m s c = c)
   \<and> (mtype m = Some ''UI_SAVE'' \<longrightarrow> status (state c) = Idle \<longrightarrow> onMessage m s c = c)
   \<and> (mtype m = Some ''UI_CANCEL'' \<longrightarrow> tabId (state c) = None \<or> s \<noteq> tabId (state c) \<longrightarrow>
        onMessage m s c = c)
   \<and> (mtype m \<noteq> Some ''UI_START'' \<longrightarrow> mtype m \<noteq> Some ''UI_SAVE''
        \<longrightarrow> mtype m \<noteq> Some ''UI_CANCEL'' \<longrightarrow>
        state (onMessage m s c) = state c
        \<and> (\<exists>new. pending (onMessage m s c) = pending c @ new \<and> list_all inert new))
   \<and> (\<forall>t r c1 c2. inert t \<longrightarrow> resume P t r c1 = Some c2 \<longrightarrow>
        state c2 = state c1 \<and> (\<exists>new. pending c2 = pending c1 @ new \<and> list_all inert new))"
proof (intro conjI impI allI)
  show "onMessage m s c = c" if "mtype m = Some ''UI_START''" "status (state c) \<noteq> Idle"
    using that by (rule onMessage_start_busy)
  show "onMessage m s c = c" if "mtype m = Some ''UI_SAVE''" "status (state c) = Idle"
    using that by (simp add: onMessage_save_ignored)
  show "onMessage m s c = c"
    if "mtype m = Some ''UI_CANCEL''" "tabId (state c) = None \<or> s \<noteq> tabId (state c)"
    using that by (rule onMessage_cancel_ignored)
  show "state (onMessage m s c) = state c"
    if "mtype m \<noteq> Some ''UI_START''" "mtype m \<noteq> Some ''UI_SAVE''" "mtype m \<noteq> Some ''UI_CANCEL''"
    using onMessage_other[OF that] by simp
  show "\<exists>new. pending (onMessage m s c) = pending c @ new \<and> list_all inert new"
    if "mtype m \<noteq> Some ''UI_START''" "mtype m \<noteq> Some ''UI_SAVE''" "mtype m \<noteq> Some ''UI_CANCEL''"
    using onMessage_other[OF that] by simp
  show "state c2 = state c1" if "inert t" "resume P t r c1 = Some c2" for t r c1 c2
    using inert_resume[OF that] by simp
  show "\<exists>new. pending c2 = pending c1 @ new \<and> list_all inert new"
    if "inert t" "resume P t r c1 = Some c2" for t r c1 c2
    using inert_resume[OF that] by simp
qed





lemma index_broadcast_loop: "index (state (broadcast_loop ts c)) = index (state c)"
  using broadcast_loop_inert[of ts c] by simp






lemma selecting_reached:
  "run sample_parser initial
     [Message (signal ''UI_START'') (Some 7), Settles 0 (Fulfilled_jobs [job1, job2]),
      Settles 0 Fulfilled, Settles 0 (Delivered True)] = Some selecting"
  by (simp add: worker_defs sample_defs selecting_def)

lemma drop_last_task [simp]:
  "take (length ts) (ts @ [t]) @ drop (Suc (length ts)) (ts @ [t]) = ts"
  by simp


lemma reportError_Some:
  "reportError e (Some t) c =
     c\<lparr> pending := pending c @ [At_reportError_send t e],
        trace := trace c @ [ConsoleError e, Deliver (Some t) (RESET_SELECTION (Failure e))] \<rparr>"
  by (simp add: reportError_def emit_def suspend_def)

lemma reportError_None:
  "reportError e None c = c\<lparr> state := idle_state, trace := trace c @ [ConsoleError e] \<rparr>"
  by (simp add: reportError_def emit_def reportError_finish_def idle_state_def)

lemma reportError_send_settles:
  "resume P (At_reportError_send t e) (Delivered b) c =
     Some (c\<lparr> state := idle_state, trace := trace c @ [Post t (UI_STATE ''idle'' (Failure e))] \<rparr>)"
  by (simp add: reportError_resume_def reportError_finish_def notifyState_def emit_def idle_state_def)

lemma empty_queue_flow:
  assumes "status (state c) = Idle"
  shows "run P c [Message (signal ''UI_START'') (Some t),
                  Settles (length (pending c)) (Fulfilled_jobs []),
                  Settles (length (pending c)) (Delivered b)]
     = Some (c\<lparr> state := idle_state,
               trace := trace c @ [Post t (UI_STATE ''idle'' LoadingList), HttpGetJobs,
                  ConsoleError EmptyQueue, Deliver (Some t) (RESET_SELECTION (Failure EmptyQueue)),
                  Post t (UI_STATE ''idle'' (Failure EmptyQueue))] \<rparr>)"
  using assms
  by (simp add: step_def onMessage_def signal_def startWorkflow_def startWorkflow_resume_def
      catch_in_def reportError_Some reportError_resume_def reportError_finish_def notifyState_def
      emit_def suspend_def idle_state_def Let_def)

lemma cancel_flow:
  assumes "mtype m = Some ''UI_CANCEL''" "tabId (state c) = Some t"
  shows "onMessage m (Some t) c =
           c\<lparr> state := \<lparr> status = Idle, jobs = [], index = 0, tabId = Some t \<rparr>,
              pending := pending c @ [At_resetState_send Ready],
              trace := trace c @ [Deliver (Some t) (RESET_SELECTION Ready)] \<rparr>"
    and "step P (onMessage m (Some t) c) (Settles (length (pending c)) (Delivered b)) =
           Some (c\<lparr> state := idle_state,
                    trace := trace c @ [Deliver (Some t) (RESET_SELECTION Ready),
                                        Post t (UI_STATE ''idle'' Ready)] \<rparr>)"
  using assms
  by (simp_all add: onMessage_def differs_def resetState_def resetState_resume_def step_def
      notifyState_def emit_def suspend_def idle_state_def Let_def)




lemma save_failures:
  "resume P (At_captureVisibleTab j rc) (Rejected e) c = Some (reportError e (tabId (state c)) c)"
  "resume P (At_loadImage j rc) (Rejected e) c = Some (reportError e (tabId (state c)) c)"
  "cropDataUrl w h r = Inl e \<Longrightarrow>
     resume P (At_loadImage j (Some r)) (Fulfilled_image w h) c
       = Some (reportError e (tabId (state c)) c)"
  "resume P (At_loadImage j None) (Fulfilled_image w h) c
       = Some (reportError TypeError (tabId (state c)) c)"
  "resume P (At_convertToBlob j r) (Rejected e) c = Some (reportError e (tabId (state c)) c)"
  "resume P (At_apiUpload j) (Rejected e) c = Some (reportError e (tabId (state c)) c)"
  by (simp_all add: capture_resume_def loadImage_resume_def convertToBlob_resume_def
      apiUpload_resume_def catch_in_def)

lemma start_failures:
  "resume P (At_apiGetJobs t) (Rejected e) c = Some (reportError e (Some t) c)"
  "resume P (At_apiGetJobs t) (Fulfilled_jobs []) c = Some (reportError EmptyQueue (Some t) c)"
  "js \<noteq> [] \<Longrightarrow> getJobAt js (index (state c)) = Some j \<Longrightarrow> \<not> isAllowed P (job_url j) \<Longrightarrow>
     resume P (At_apiGetJobs t) (Fulfilled_jobs js) c
       = Some (reportError (UrlNotAllowed (job_url j)) (Some t)
                 (c\<lparr> state := (state c)\<lparr> jobs := js, status := Navigating \<rparr> \<rparr>))"
  "resume P (At_navigate (In_startWorkflow t)) (Rejected e) c = Some (reportError e (Some t) c)"
  "resume P (At_navigate In_handleSave) (Rejected e) c = Some (reportError e (tabId (state c)) c)"
  by (simp_all add: startWorkflow_resume_def navigate_resume_def processCurrentJob_def catch_in_def)

lemma more_failures:
  "getJobAt (jobs (state c)) (index (state c)) = None \<Longrightarrow>
     handleSave rc c = reportError JobNotFound (tabId (state c))
                         (c\<lparr> state := (state c)\<lparr> status := Uploading \<rparr> \<rparr>)"
  "getJobAt (jobs (state c)) (index (state c) + 1) = Some j \<Longrightarrow> \<not> isAllowed P (job_url j) \<Longrightarrow>
     resume P (At_apiUpload j0) Fulfilled c
       = Some (reportError (UrlNotAllowed (job_url j)) (tabId (state c))
                 (c\<lparr> state := (state c)\<lparr> index := index (state c) + 1 \<rparr> \<rparr>))"
  by (simp_all add: handleSave_def apiUpload_resume_def processCurrentJob_def catch_in_def Let_def)

text \<open>
  Claim C3: every failure of a run step reaches \<^verbatim>\<open>reportError\<close>: a failed fetch, an
  empty queue, a job URL that is not allowed, a navigation timeout, a missing job, a
  failed capture, decode, crop, encoding or upload. \<^verbatim>\<open>reportError\<close> logs the error
  and, when it knows a tab, sends the failure notice to it; when that delivery settles,
  delivered or not, status is idle, jobs is empty, index is 0 and tabId is absent. With
  no tab to notify it resets at once. A start answered by an empty queue ends in the
  initial state without any navigation.
\<close>

theorem failures_reset_the_run:
  "resume P (At_apiGetJobs t) (Rejected e) c = Some (reportError e (Some t) c)
   \<and> resume P (At_apiGetJobs t) (Fulfilled_jobs []) c = Some (reportError EmptyQueue (Some t) c)
   \<and> (\<forall>js j. js \<noteq> [] \<longrightarrow> getJobAt js (index (state c)) = Some j \<longrightarrow> \<not> isAllowed P (job_url j) \<longrightarrow>
         resume P (At_apiGetJobs t) (Fulfilled_jobs js) c
           = Some (reportError (UrlNotAllowed (job_url j)) (Some t)
                     (c\<lparr> state := (state c)\<lparr> jobs := js, status := Navigating \<rparr> \<rparr>)))
   \<and> resume P (At_navigate (In_startWorkflow t)) (Rejected e) c = Some (reportError e (Some t) c)
   \<and> resume P (At_navigate In_handleSave) (Rejected e) c = Some (reportError e (tabId (state c)) c)
   \<and> (\<forall>rc. getJobAt (jobs (state c)) (index (state c)) = None \<longrightarrow>
         handleSave rc c = reportError JobNotFound (tabId (state c))
                             (c\<lparr> state := (state c)\<lparr> status := Uploading \<rparr> \<rparr>))
   \<and> (\<forall>j rc. resume P (At_captureVisibleTab j rc) (Rejected e) c
         = Some (reportError e (tabId (state c)) c))
   \<and> (\<forall>j rc. resume P (At_loadImage j rc) (Rejected e) c
         = Some (reportError e (tabId (state c)) c))
   \<and> (\<forall>j r w h. cropDataUrl w h r = Inl e \<longrightarrow>
         resume P (At_loadImage j (Some r)) (Fulfilled_image w h) c
           = Some (reportError e (tabId (state c)) c))
   \<and> (\<forall>j w h. resume P (At_loadImage j None) (Fulfilled_image w h) c
         = Some (reportError TypeError (tabId (state c)) c))
   \<and> (\<forall>j r. resume P (At_convertToBlob j r) (Rejected e) c
         = Some (reportError e (tabId (state c)) c))
   \<and> (\<forall>j. resume P (At_apiUpload j) (Rejected e) c = Some (reportError e (tabId (state c)) c))
   \<and> (\<forall>j j0. getJobAt (jobs (state c)) (index (state c) + 1) = Some j \<longrightarrow>
         \<not> isAllowed P (job_url j) \<longrightarrow>
         resume P (At_apiUpload j0) Fulfilled c
           = Some (reportError (UrlNotAllowed (job_url j)) (tabId (state c))
                     (c\<lparr> state := (state c)\<lparr> index := index (state c) + 1 \<rparr> \<rparr>)))
   \<and> reportError e (Some t) c =
        c\<lparr> pending := pending c @ [At_reportError_send t e],
           trace := trace c @ [ConsoleError e, Deliver (Some t) (RESET_SELECTION (Failure e))] \<rparr>
   \<and> (\<forall>b. resume P (At_reportError_send t e) (Delivered b) c =
        Some (c\<lparr> state := idle_state,
                 trace := trace c @ [Post t (UI_STATE ''idle'' (Failure e))] \<rparr>))
   \<and> reportError e None c = c\<lparr> state := idle_state, trace := trace c @ [ConsoleError e] \<rparr>
   \<and> (\<forall>b. status (state c) = Idle \<longrightarrow>
         run P c [Message (signal ''UI_START'') (Some t),
                  Settles (length (pending c)) (Fulfilled_jobs []),
                  Settles (length (pending c)) (Delivered b)]
         = Some (c\<lparr> state := idle_state,
               trace := trace c @ [Post t (UI_STATE ''idle'' LoadingList), HttpGetJobs,
                  ConsoleError EmptyQueue, Deliver (Some t) (RESET_SELECTION (Failure EmptyQueue)),
                  Post t (UI_STATE ''idle'' (Failure EmptyQueue))] \<rparr>))"
  by (intro conjI allI impI)
    (simp_all add: start_failures save_failures more_failures reportError_send_settles
       empty_queue_flow reportError_Some reportError_None del: resume.simps run.simps)

theorem failures_reset_the_run_witness:
  "status (state initial) = Idle
   \<and> run sample_parser initial
        [Message (signal ''UI_START'') (Some 7),
         Settles (length (pending initial)) (Fulfilled_jobs []),
         Settles (length (pending initial)) (Delivered False)]
      = Some (initial\<lparr> state := idle_state,
               trace := trace initial @ [Post 7 (UI_STATE ''idle'' LoadingList), HttpGetJobs,
                  ConsoleError EmptyQueue, Deliver (Some 7) (RESET_SELECTION (Failure EmptyQueue)),
                  Post 7 (UI_STATE ''idle'' (Failure EmptyQueue))] \<rparr>)"
proof -
  have h: "status (state initial) = Idle" by (simp add: initial_def idle_state_def)
  note T = failures_reset_the_run[where P = sample_parser and c = initial and t = 7]
  note flow = T[THEN conjunct2, THEN conjunct2, THEN conjunct2, THEN conjunct2, THEN conjunct2,
      THEN conjunct2, THEN conjunct2, THEN conjunct2, THEN conjunct2, THEN conjunct2,
      THEN conjunct2, THEN conjunct2, THEN conjunct2, THEN conjunct2, THEN conjunct2,
      THEN conjunct2, rule_format, OF h, of False]
  from h flow show ?thesis by (intro conjI)
qed

lemma index_reportError_exact:
  "index (state (reportError e tab c)) = (case tab of None \<Rightarrow> 0 | Some x \<Rightarrow> index (state c))"
  by (cases tab) (simp_all add: state_reportError idle_state_def)

text \<open>
  Claim C5: a save-selection is acted upon exactly when the status is awaiting_selection
  and the sender's tab is the one recorded in tabId; otherwise the configuration is
  unchanged. An accepted save sets the status to uploading before the handler returns,
  so of any list of save-selection signals handled back to back at most one is acted upon.
\<close>

theorem save_selection_guard:
  "(mtype m = Some ''UI_SAVE'' \<longrightarrow>
      onMessage m s c =
        (if status (state c) = AwaitingSelection \<and> (\<exists>t. s = Some t \<and> tabId (state c) = Some t)
         then handleSave (mrect m) c else c)
      \<and> (status (state c) \<noteq> AwaitingSelection \<or> tabId (state c) = None \<or> s \<noteq> tabId (state c)
           \<longrightarrow> onMessage m s c = c)
      \<and> (status (state c) = AwaitingSelection \<longrightarrow> tabId (state c) = Some t \<longrightarrow>
           status (state (onMessage m (Some t) c)) = Uploading))
   \<and> ((\<forall>(m', s') \<in> set ms. mtype m' = Some ''UI_SAVE'') \<longrightarrow>
        receive_all ms c = c
        \<or> (\<exists>(m', s') \<in> set ms. receive_all ms c = handleSave (mrect m') c))"
proof (intro conjI impI)
  assume ty: "mtype m = Some ''UI_SAVE''"
  show "onMessage m s c =
        (if status (state c) = AwaitingSelection \<and> (\<exists>t. s = Some t \<and> tabId (state c) = Some t)
         then handleSave (mrect m) c else c)"
    using ty by (rule onMessage_save)
  show "onMessage m s c = c"
    if "status (state c) \<noteq> AwaitingSelection \<or> tabId (state c) = None \<or> s \<noteq> tabId (state c)"
    using ty that by (rule onMessage_save_ignored)
  show "status (state (onMessage m (Some t) c)) = Uploading"
    if "status (state c) = AwaitingSelection" "tabId (state c) = Some t"
    using that by (simp add: onMessage_save[OF ty] handleSave_status)
next
  show "receive_all ms c = c \<or> (\<exists>(m', s') \<in> set ms. receive_all ms c = handleSave (mrect m') c)"
    if "\<forall>(m', s') \<in> set ms. mtype m' = Some ''UI_SAVE''"
    using that by (rule saves_at_most_one)
qed

theorem save_selection_guard_witness:
  "mtype (save_selection rect1) = Some ''UI_SAVE''
   \<and> status (state selecting) = AwaitingSelection \<and> tabId (state selecting) = Some 7
   \<and> status (state (onMessage (save_selection rect1) (Some 7) selecting)) = Uploading
   \<and> onMessage (save_selection rect1) (Some 8) selecting = selecting
   \<and> onMessage (save_selection rect1) (Some 7)
        (onMessage (save_selection rect1) (Some 7) selecting)
      = onMessage (save_selection rect1) (Some 7) selecting"
proof -
  have ty: "mtype (save_selection rect1) = Some ''UI_SAVE''"
    by (simp add: save_selection_def)
  have h: "status (state selecting) = AwaitingSelection" "tabId (state selecting) = Some 7"
    by (simp_all add: selecting_def)
  have ne: "status (state selecting) \<noteq> AwaitingSelection \<or> tabId (state selecting) = None
      \<or> Some 8 \<noteq> tabId (state selecting)"
    by (simp add: selecting_def)
  note T = save_selection_guard[THEN conjunct1, rule_format, OF ty]
  note up = T[THEN conjunct2, THEN conjunct2, rule_format, OF h]
  note other = T[THEN conjunct2, THEN conjunct1, rule_format, OF ne]
  have "status (state (onMessage (save_selection rect1) (Some 7) selecting)) \<noteq> AwaitingSelection
      \<or> tabId (state (onMessage (save_selection rect1) (Some 7) selecting)) = None
      \<or> Some 7 \<noteq> tabId (state (onMessage (save_selection rect1) (Some 7) selecting))"
    using up by simp
  note again = T[THEN conjunct2, THEN conjunct1, rule_format, OF this]
  from ty h up other again show ?thesis by (intro conjI)
qed

text \<open>
  What the cancel branch does in any status: with the sender's tab recorded in tabId it
  runs \<^verbatim>\<open>resetState\<close>, and if the delivery of its message is the next event to settle,
  the state is the initial one; with tabId absent, or another sender, nothing changes.
\<close>

lemma cancel_runs_resetState:
  "mtype m = Some ''UI_CANCEL'' \<longrightarrow>
     (tabId (state c) = Some t \<longrightarrow>
        onMessage m (Some t) c =
          c\<lparr> state := \<lparr> status = Idle, jobs = [], index = 0, tabId = Some t \<rparr>,
             pending := pending c @ [At_resetState_send Ready],
             trace := trace c @ [Deliver (Some t) (RESET_SELECTION Ready)] \<rparr>
        \<and> step P (onMessage m (Some t) c) (Settles (length (pending c)) (Delivered b)) =
            Some (c\<lparr> state := idle_state,
                     trace := trace c @ [Deliver (Some t) (RESET_SELECTION Ready),
                                         Post t (UI_STATE ''idle'' Ready)] \<rparr>))
     \<and> (tabId (state c) = None \<longrightarrow> onMessage m s c = c)
     \<and> (s \<noteq> tabId (state c) \<longrightarrow> onMessage m s c = c)"
proof (intro conjI impI)
  assume ty: "mtype m = Some ''UI_CANCEL''"
  show "onMessage m (Some t) c =
          c\<lparr> state := \<lparr> status = Idle, jobs = [], index = 0, tabId = Some t \<rparr>,
             pending := pending c @ [At_resetState_send Ready],
             trace := trace c @ [Deliver (Some t) (RESET_SELECTION Ready)] \<rparr>"
    if "tabId (state c) = Some t"
    using ty that by (rule cancel_flow(1))
  show "step P (onMessage m (Some t) c) (Settles (length (pending c)) (Delivered b)) =
            Some (c\<lparr> state := idle_state,
                     trace := trace c @ [Deliver (Some t) (RESET_SELECTION Ready),
                                         Post t (UI_STATE ''idle'' Ready)] \<rparr>)"
    if "tabId (state c) = Some t"
    using ty that by (rule cancel_flow(2))
  show "onMessage m s c = c" if "tabId (state c) = None"
    using ty that by (simp add: onMessage_cancel_ignored)
  show "onMessage m s c = c" if "s \<noteq> tabId (state c)"
    using ty that by (simp add: onMessage_cancel_ignored)
qed







text \<open>
  Claim C10 on the code. After a start and a cancel from tab 7 the status is idle and
  tabId is still 7; a further cancel from tab 7 is not ignored in that idle status but
  sends a second reset message. And when the fetch of the cancelled run returns before
  the reset message is delivered, the four fields are never all reset: the state goes
  from idle with tabId 7 to navigating with tabId 7 and, once the delivery settles, to
  navigating without a tabId, with the navigation still pending.
\<close>

theorem cancel_in_reset_window:
  "map_option state (run sample_parser initial
       [Message (signal ''UI_START'') (Some 7), Message (signal ''UI_CANCEL'') (Some 7)])
     = Some \<lparr> status = Idle, jobs = [], index = 0, tabId = Some 7 \<rparr>
   \<and> map_option trace (run sample_parser initial
       [Message (signal ''UI_START'') (Some 7), Message (signal ''UI_CANCEL'') (Some 7),
        Message (signal ''UI_CANCEL'') (Some 7)])
     = Some [Post 7 (UI_STATE ''idle'' LoadingList), HttpGetJobs,
             Deliver (Some 7) (RESET_SELECTION Ready), Deliver (Some 7) (RESET_SELECTION Ready)]
   \<and> map_option state (run sample_parser initial
       [Message (signal ''UI_START'') (Some 7), Message (signal ''UI_CANCEL'') (Some 7),
        Settles 0 (Fulfilled_jobs [job1])])
     = Some \<lparr> status = Navigating, jobs = [job1], index = 0, tabId = Some 7 \<rparr>
   \<and> map_option state (run sample_parser initial
       [Message (signal ''UI_START'') (Some 7), Message (signal ''UI_CANCEL'') (Some 7),
        Settles 0 (Fulfilled_jobs [job1]), Settles 0 (Delivered True)])
     = Some \<lparr> status = Navigating, jobs = [job1], index = 0, tabId = None \<rparr>
   \<and> map_option pending (run sample_parser initial
       [Message (signal ''UI_START'') (Some 7), Message (signal ''UI_CANCEL'') (Some 7),
        Settles 0 (Fulfilled_jobs [job1]), Settles 0 (Delivered True)])
     = Some [At_navigate (In_startWorkflow 7)]"
  by (simp add: worker_defs sample_defs)



end
